theory Spec2Isabelle
  imports Complex_Main "HOL-Library.AList"
begin

section \<open>Data model of app.py\<close>

text \<open>
  A value read from the JSON body of a request with \<open>data.get(...)\<close>: a missing field
  and an explicit null both read as Python's \<open>None\<close> (\<open>JNull\<close>). Only the scalar
  JSON values are modelled (no arrays, objects or fractional numbers).
\<close>

datatype jval = JNull | JBool bool | JInt int | JStr string

text \<open>Python truthiness, as used by \<open>not name\<close> and by \<open>if not user\<close>.\<close>

fun truthy :: "jval \<Rightarrow> bool" where
  "truthy JNull = False"
| "truthy (JBool b) = b"
| "truthy (JInt n) = (n \<noteq> 0)"
| "truthy (JStr s) = (s \<noteq> [])"

text \<open>
  A document of the \<open>users\<close> collection, with the fields \<open>verify_otp\<close> inserts.
  \<open>u_id\<close> is the store's \<open>_id\<close> rendered by \<open>str\<close>; \<open>u_image\<close> is optional because
  the handlers read it with a default. Timestamps are UTC instants in microseconds;
  \<open>u_created_at\<close> is the value handed to \<open>insert_one\<close>, which no handler reads back.
\<close>

record user_doc =
  u_id :: string
  u_name :: jval
  u_contact :: jval
  u_method :: string
  u_password :: string
  u_verified :: bool
  u_image :: "string option"
  u_created_at :: int

text \<open>
  A document of the \<open>pending_users\<close> collection. \<open>signup\<close> writes all seven fields,
  \<open>send_login_otp\<close> only \<open>contact\<close>, \<open>otp\<close>, \<open>otp_expiry\<close> and \<open>login_otp\<close>; a field
  that was not written is \<open>None\<close> and reading it with \<open>record[...]\<close> raises KeyError.
  \<open>p_otp_expiry\<close> is the expiry as the store holds it (see \<open>bson_datetime\<close> below).
\<close>

record pending_doc =
  p_name :: "jval option"
  p_contact :: jval
  p_method :: "string option"
  p_password :: "string option"
  p_otp :: string
  p_otp_expiry :: int
  p_login_otp :: bool

text \<open>
  The database: two collections, each a list of documents in insertion order.
  No unique index is declared in the source, so duplicates are possible in principle.
\<close>

record db =
  users :: "user_doc list"
  pending_users :: "pending_doc list"

definition init_db :: db where
  "init_db = \<lparr>users = [], pending_users = []\<rparr>"

subsection \<open>Store operations\<close>

text \<open>
  \<open>find_one\<close> returns the first matching document, \<open>delete_one\<close> removes the first
  matching document, \<open>delete_many\<close> removes every matching document, \<open>insert_one\<close>
  appends. The store operations of the request handlers are taken to succeed.
\<close>

definition find_one :: "('a \<Rightarrow> bool) \<Rightarrow> 'a list \<Rightarrow> 'a option" where
  "find_one P xs = find P xs"

fun delete_one :: "('a \<Rightarrow> bool) \<Rightarrow> 'a list \<Rightarrow> 'a list" where
  "delete_one P [] = []"
| "delete_one P (x # xs) = (if P x then xs else x # delete_one P xs)"

definition delete_many :: "('a \<Rightarrow> bool) \<Rightarrow> 'a list \<Rightarrow> 'a list" where
  "delete_many P xs = filter (\<lambda>x. \<not> P x) xs"

definition insert_one :: "'a \<Rightarrow> 'a list \<Rightarrow> 'a list" where
  "insert_one d xs = xs @ [d]"

subsection \<open>Responses and exceptions\<close>

text \<open>
  A handler returns \<open>jsonify(body), status\<close>. \<open>Profile name contact userId image\<close> is
  the login response, whose message is always "Login successful". An exception that no
  handler catches leaves the handler as \<open>Inl\<close> (the framework answers 500).
\<close>

datatype body =
    Message string
  | Error string
  | Profile jval jval string string

type_synonym response = "body \<times> nat"

datatype py_exn = KeyError | AttributeError | HashError | StoreError

type_synonym 'a result = "py_exn + 'a"

subsection \<open>Constants\<close>

definition DEFAULT_PROFILE_PIC :: string where
  "DEFAULT_PROFILE_PIC = ''https://i.pravatar.cc/150?img=12''"

text \<open>\<open>timedelta(minutes=5)\<close> in microseconds.\<close>

definition OTP_TTL :: int where
  "OTP_TTL = 5 * 60 * 1000000"

text \<open>
  The store keeps a datetime as a whole number of milliseconds: the microseconds below
  the millisecond are dropped when a document is written, so the \<open>otp_expiry\<close> that
  \<open>find_one\<close> returns is the one \<open>insert_one\<close> was given, cut to the millisecond.
\<close>

definition bson_datetime :: "int \<Rightarrow> int" where
  "bson_datetime t = (t div 1000) * 1000"

text \<open>Python's \<open>str\<close> of a non-negative integer.\<close>

fun str_nat :: "nat \<Rightarrow> string" where
  "str_nat n =
     (if n < 10 then [''0123456789'' ! n]
      else str_nat (n div 10) @ [''0123456789'' ! (n mod 10)])"

declare str_nat.simps [simp del]

section \<open>Authentication handlers\<close>

text \<open>
  Each handler takes the database, the fields of the request body, and what it reads
  from its environment: the clock (\<open>now\<close>), the random number (\<open>rnd\<close>, drawn by
  \<open>random.randint(100000, 999999)\<close>), the outcome of the password hash and the outcome
  of \<open>send_email_otp\<close> (\<open>None\<close> when it returns, \<open>Some msg\<close> when it raises an exception
  whose \<open>str\<close> is \<open>msg\<close>). It returns the response and the database afterwards.
\<close>

definition signup ::
  "db \<Rightarrow> jval \<Rightarrow> jval \<Rightarrow> jval \<Rightarrow> int \<Rightarrow> nat \<Rightarrow> string result \<Rightarrow> string option
     \<Rightarrow> response result \<times> db" where
  "signup s name contact password now rnd hash_result send_result =
     (if \<not> truthy name \<or> \<not> truthy contact \<or> \<not> truthy password then
        (Inr (Error ''Missing required fields (name, contact, password)'', 400), s)
      else if find_one (\<lambda>u. u_contact u = contact) (users s) \<noteq> None then
        (Inr (Error ''User already exists'', 400), s)
      else
        (let otp = str_nat rnd;
             expiry = now + OTP_TTL
         in case hash_result of
              Inl e \<Rightarrow> (Inl e, s)
            | Inr hashed_pw \<Rightarrow>
                (let p1 = delete_many (\<lambda>d. p_contact d = contact) (pending_users s);
                     p2 = insert_one
                            \<lparr>p_name = Some name, p_contact = contact,
                             p_method = Some ''email'', p_password = Some hashed_pw,
                             p_otp = otp, p_otp_expiry = bson_datetime expiry,
                             p_login_otp = False\<rparr> p1
                 in case send_result of
                      None \<Rightarrow>
                        (Inr (Message ''Signup OTP sent to email'', 200),
                         s\<lparr>pending_users := p2\<rparr>)
                    | Some e \<Rightarrow>
                        (Inr (Error (''Failed to send OTP: '' @ e), 500),
                         s\<lparr>pending_users :=
                              delete_one (\<lambda>d. p_contact d = contact) p2\<rparr>))))"

text \<open>
  \<open>verify_otp\<close> reads the clock twice: \<open>now\<close> for the expiry test and \<open>created\<close> for
  \<open>created_at\<close>; \<open>oid\<close> is the \<open>_id\<close> the store gives the inserted user.
\<close>

definition verify_otp ::
  "db \<Rightarrow> jval \<Rightarrow> jval \<Rightarrow> int \<Rightarrow> int \<Rightarrow> string \<Rightarrow> response result \<times> db" where
  "verify_otp s contact otp now created oid =
     (case find_one (\<lambda>d. p_contact d = contact \<and> p_login_otp d = False) (pending_users s) of
        None \<Rightarrow> (Inr (Error ''No OTP request found'', 404), s)
      | Some record \<Rightarrow>
          if now > p_otp_expiry record then
            (Inr (Error ''OTP expired. Please sign up again.'', 400),
             s\<lparr>pending_users := delete_one (\<lambda>d. p_contact d = contact) (pending_users s)\<rparr>)
          else if JStr (p_otp record) \<noteq> otp then
            (Inr (Error ''Invalid OTP'', 400), s)
          else
            (case p_name record of
               None \<Rightarrow> (Inl KeyError, s)
             | Some name \<Rightarrow>
                 (case p_password record of
                    None \<Rightarrow> (Inl KeyError, s)
                  | Some pw \<Rightarrow>
                      (Inr (Message ''Account verified successfully'', 200),
                       s\<lparr>users :=
                            insert_one
                              \<lparr>u_id = oid, u_name = name, u_contact = p_contact record,
                               u_method = ''email'', u_password = pw, u_verified = True,
                               u_image = Some DEFAULT_PROFILE_PIC, u_created_at = created\<rparr>
                              (users s),
                         pending_users :=
                            delete_one (\<lambda>d. p_contact d = contact) (pending_users s)\<rparr>))))"

text \<open>The public profile both login handlers return.\<close>

definition profile :: "user_doc \<Rightarrow> response" where
  "profile user =
     (Profile (u_name user) (u_contact user) (u_id user)
        (case u_image user of None \<Rightarrow> DEFAULT_PROFILE_PIC | Some i \<Rightarrow> i), 200)"

text \<open>
  \<open>check\<close> is \<open>bcrypt.check_password_hash\<close>: given the stored hash and the submitted
  password it answers or raises.
\<close>

definition login ::
  "db \<Rightarrow> jval \<Rightarrow> jval \<Rightarrow> (string \<Rightarrow> jval \<Rightarrow> bool result) \<Rightarrow> response result \<times> db" where
  "login s contact password check =
     (case find_one (\<lambda>u. u_contact u = contact) (users s) of
        None \<Rightarrow> (Inr (Error ''User not found'', 404), s)
      | Some user \<Rightarrow>
          (case check (u_password user) password of
             Inl e \<Rightarrow> (Inl e, s)
           | Inr True \<Rightarrow> (Inr (profile user), s)
           | Inr False \<Rightarrow> (Inr (Error ''Invalid password'', 400), s)))"

definition send_login_otp ::
  "db \<Rightarrow> jval \<Rightarrow> int \<Rightarrow> nat \<Rightarrow> string option \<Rightarrow> response result \<times> db" where
  "send_login_otp s contact now rnd send_result =
     (case find_one (\<lambda>u. u_contact u = contact) (users s) of
        None \<Rightarrow> (Inr (Error ''User not found'', 404), s)
      | Some user \<Rightarrow>
          (let otp = str_nat rnd;
               expiry = now + OTP_TTL;
               p1 = delete_many (\<lambda>d. p_contact d = contact) (pending_users s);
               p2 = insert_one
                      \<lparr>p_name = None, p_contact = contact, p_method = None,
                       p_password = None, p_otp = otp,
                       p_otp_expiry = bson_datetime expiry, p_login_otp = True\<rparr> p1
           in case send_result of
                None \<Rightarrow>
                  (Inr (Message ''Login OTP sent to email'', 200), s\<lparr>pending_users := p2\<rparr>)
              | Some e \<Rightarrow>
                  (Inr (Error (''Failed to send OTP: '' @ e), 500), s\<lparr>pending_users := p2\<rparr>)))"

text \<open>
  In \<open>verify_login_otp\<close> the user is looked up and the challenge deleted before the
  response is built; \<open>user.get\<close> on \<open>None\<close> raises AttributeError after the deletion.
\<close>

definition verify_login_otp ::
  "db \<Rightarrow> jval \<Rightarrow> jval \<Rightarrow> int \<Rightarrow> response result \<times> db" where
  "verify_login_otp s contact otp now =
     (case find_one (\<lambda>d. p_contact d = contact \<and> p_login_otp d = True) (pending_users s) of
        None \<Rightarrow> (Inr (Error ''No OTP login request found'', 404), s)
      | Some record \<Rightarrow>
          if now > p_otp_expiry record then
            (Inr (Error ''OTP expired'', 400),
             s\<lparr>pending_users := delete_one (\<lambda>d. p_contact d = contact) (pending_users s)\<rparr>)
          else if JStr (p_otp record) \<noteq> otp then
            (Inr (Error ''Invalid OTP'', 400), s)
          else
            (let user = find_one (\<lambda>u. u_contact u = contact) (users s);
                 s' = s\<lparr>pending_users :=
                          delete_one (\<lambda>d. p_contact d = contact) (pending_users s)\<rparr>
             in case user of
                  None \<Rightarrow> (Inl AttributeError, s')
                | Some u \<Rightarrow> (Inr (profile u), s')))"

section \<open>Expiry reclaimer\<close>

text \<open>
  One sweep of the background thread: \<open>delete_many({"otp_expiry": {"$lt": now}})\<close>.
\<close>

definition sweep :: "int \<Rightarrow> pending_doc list \<Rightarrow> pending_doc list" where
  "sweep now p = delete_many (\<lambda>d. p_otp_expiry d < now) p"

text \<open>
  \<open>clean_expired_otps\<close> is \<open>while True\<close> around the sweep and a sleep, with no
  exception handler. The loop is run on the list of its iterations' environments: the
  clock reading, and \<open>None\<close> when the store's bulk delete returns or \<open>Some e\<close> when it
  raises \<open>e\<close> (taken to delete nothing then). \<open>Running\<close> says the thread is still in its
  loop when the list is used up; \<open>Died e\<close> says exception \<open>e\<close> left the loop and ended the
  thread.
\<close>

datatype thread_state = Running | Died py_exn

fun clean_expired_otps ::
  "(int \<times> py_exn option) list \<Rightarrow> pending_doc list \<Rightarrow> thread_state \<times> pending_doc list" where
  "clean_expired_otps [] p = (Running, p)"
| "clean_expired_otps ((now, outcome) # ticks) p =
     (case outcome of
        Some e \<Rightarrow> (Died e, p)
      | None \<Rightarrow> clean_expired_otps ticks (sweep now p))"

section \<open>Sequences of operations\<close>

text \<open>
  The requests and reclaimer sweeps that change the database, each with the inputs and
  environment of the handler it names, run one after the other.
\<close>

datatype op =
    OpSignup jval jval jval int nat "string result" "string option"
  | OpVerifyOtp jval jval int int string
  | OpLogin jval jval "string \<Rightarrow> jval \<Rightarrow> bool result"
  | OpSendLoginOtp jval int nat "string option"
  | OpVerifyLoginOtp jval jval int
  | OpSweep int

fun step :: "db \<Rightarrow> op \<Rightarrow> db" where
  "step s (OpSignup name contact password now rnd hash_result send_result) =
     snd (signup s name contact password now rnd hash_result send_result)"
| "step s (OpVerifyOtp contact otp now created oid) =
     snd (verify_otp s contact otp now created oid)"
| "step s (OpLogin contact password check) = snd (login s contact password check)"
| "step s (OpSendLoginOtp contact now rnd send_result) =
     snd (send_login_otp s contact now rnd send_result)"
| "step s (OpVerifyLoginOtp contact otp now) = snd (verify_login_otp s contact otp now)"
| "step s (OpSweep now) = s\<lparr>pending_users := sweep now (pending_users s)\<rparr>"

definition run :: "db \<Rightarrow> op list \<Rightarrow> db" where
  "run s ops = foldl step s ops"

text \<open>The pending challenges of one contact.\<close>

definition challenges_for :: "jval \<Rightarrow> pending_doc list \<Rightarrow> pending_doc list" where
  "challenges_for c p = filter (\<lambda>d. p_contact d = c) p"

section \<open>Catalog\<close>

text \<open>
  A cell of the spreadsheet as \<open>values_only=True\<close> yields it (no fractional numbers or
  dates), a row as the tuple of its cells, a sheet as the list of its rows from row 1,
  and the workbook as its sheets in order, each with its title: \<open>wb.sheetnames\<close> is
  \<open>map fst wb\<close> and \<open>wb[name]\<close> is the first sheet of that title.
\<close>

datatype cell = CNone | CStr string | CInt int | CBool bool

fun truthy_cell :: "cell \<Rightarrow> bool" where
  "truthy_cell CNone = False"
| "truthy_cell (CStr s) = (s \<noteq> [])"
| "truthy_cell (CInt n) = (n \<noteq> 0)"
| "truthy_cell (CBool b) = b"

definition str_int :: "int \<Rightarrow> string" where
  "str_int i = (if i < 0 then ''-'' @ str_nat (nat (- i)) else str_nat (nat i))"

text \<open>How an f-string renders a cell.\<close>

fun str_cell :: "cell \<Rightarrow> string" where
  "str_cell CNone = ''None''"
| "str_cell (CStr s) = s"
| "str_cell (CInt n) = str_int n"
| "str_cell (CBool b) = (if b then ''True'' else ''False'')"

type_synonym row = "cell list"
type_synonym workbook = "(string \<times> row list) list"

record item =
  i_id :: string
  i_title :: cell
  i_author :: cell
  i_price :: cell
  i_image :: cell
  i_category :: string
  i_image2 :: cell
  i_image3 :: cell
  i_description :: cell
  i_image4 :: cell
  i_image5 :: cell

type_synonym categories = "(string \<times> item list) list"

text \<open>\<open>row[k] if len(row) > k else ""\<close> and \<open>row[k] if len(row) > k and row[k] else ""\<close>.\<close>

definition col_or_empty :: "row \<Rightarrow> nat \<Rightarrow> cell" where
  "col_or_empty r k = (if length r > k then r ! k else CStr [])"

definition col_if_set :: "row \<Rightarrow> nat \<Rightarrow> cell" where
  "col_if_set r k = (if length r > k \<and> truthy_cell (r ! k) then r ! k else CStr [])"

definition make_item :: "string \<Rightarrow> row \<Rightarrow> item" where
  "make_item sheet_name r =
     \<lparr>i_id = sheet_name @ ''_'' @ str_cell (r ! 0),
      i_title = r ! 1,
      i_author = col_or_empty r 2,
      i_price = col_or_empty r 3,
      i_image = col_if_set r 4,
      i_category = sheet_name,
      i_image2 = col_if_set r 6,
      i_image3 = col_if_set r 7,
      i_description = col_if_set r 8,
      i_image4 = col_if_set r 9,
      i_image5 = col_if_set r 10\<rparr>"

text \<open>The inner loop over the rows of one sheet, with its two \<open>continue\<close>s.\<close>

fun read_rows :: "string \<Rightarrow> row list \<Rightarrow> item list" where
  "read_rows sheet_name [] = []"
| "read_rows sheet_name (r # rs) =
     (if \<not> list_ex truthy_cell r then read_rows sheet_name rs
      else if length r < 2 \<or> \<not> truthy_cell (r ! 0) \<or> \<not> truthy_cell (r ! 1) then
        read_rows sheet_name rs
      else make_item sheet_name r # read_rows sheet_name rs)"

text \<open>
  The outer loop over \<open>wb.sheetnames\<close>; \<open>categories[sheet_name] = items\<close> is the update
  of an insertion-ordered dictionary, and rows are read from row 2.
\<close>

fun load_sheets :: "workbook \<Rightarrow> string list \<Rightarrow> categories \<Rightarrow> categories result" where
  "load_sheets wb [] categories = Inr categories"
| "load_sheets wb (sheet_name # names) categories =
     (case map_of wb sheet_name of
        None \<Rightarrow> Inl KeyError
      | Some sheet \<Rightarrow>
          load_sheets wb names
            (AList.update sheet_name (read_rows sheet_name (drop 1 sheet)) categories))"

text \<open>
  The module-level cache. \<open>time.time()\<close> is a number of seconds.
\<close>

record cache =
  c_data :: "categories option"
  c_timestamp :: real

definition init_cache :: cache where
  "init_cache = \<lparr>c_data = None, c_timestamp = 0\<rparr>"

definition CACHE_TTL :: real where
  "CACHE_TTL = 10"

text \<open>What a call does besides returning: file-system reads and prints, in order.\<close>

datatype io_event = PathExists | LoadWorkbook | PrintNotFound | PrintLoaded nat

text \<open>
  \<open>load_items_by_category\<close>: \<open>now\<close> is the clock read by the freshness test, \<open>file\<close> the
  dataset (\<open>None\<close> when the path does not exist), \<open>stamp\<close> the clock read when the cache
  is written. The test \<open>_cache["data"] and ...\<close> is Python truthiness: \<open>None\<close> and the
  empty dictionary both fail it.
\<close>

definition load_items_by_category ::
  "cache \<Rightarrow> real \<Rightarrow> workbook option \<Rightarrow> real \<Rightarrow> categories result \<times> cache \<times> io_event list" where
  "load_items_by_category c now file stamp =
     (case (case c_data c of
              None \<Rightarrow> None
            | Some d \<Rightarrow> if d \<noteq> [] \<and> now - c_timestamp c < CACHE_TTL then Some d else None) of
        Some d \<Rightarrow> (Inr d, c, [])
      | None \<Rightarrow>
          (case file of
             None \<Rightarrow> (Inr [], c, [PathExists, PrintNotFound])
           | Some wb \<Rightarrow>
               (case load_sheets wb (map fst wb) [] of
                  Inl e \<Rightarrow> (Inl e, c, [PathExists, LoadWorkbook])
                | Inr categories \<Rightarrow>
                    (Inr categories,
                     \<lparr>c_data = Some categories, c_timestamp = stamp\<rparr>,
                     [PathExists, LoadWorkbook, PrintLoaded (length categories)]))))"

definition PLACEHOLDER :: string where
  "PLACEHOLDER = ''https://via.placeholder.com/150''"

record category_entry =
  ce_name :: string
  ce_count :: nat
  ce_thumbnail :: cell

text \<open>The inner loop of \<open>get_category_list\<close>: the first truthy image, else \<open>""\<close>.\<close>

fun first_image :: "item list \<Rightarrow> cell" where
  "first_image [] = CStr []"
| "first_image (it # items) =
     (if truthy_cell (i_image it) then i_image it else first_image items)"

definition category_list :: "categories \<Rightarrow> category_entry list" where
  "category_list data =
     map (\<lambda>(name, items).
            \<lparr>ce_name = name, ce_count = length items,
             ce_thumbnail =
               (let thumbnail = first_image items
                in if truthy_cell thumbnail then thumbnail else CStr PLACEHOLDER)\<rparr>) data"

definition get_category_list ::
  "cache \<Rightarrow> real \<Rightarrow> workbook option \<Rightarrow> real
     \<Rightarrow> category_entry list result \<times> cache \<times> io_event list" where
  "get_category_list c now file stamp =
     (case load_items_by_category c now file stamp of
        (Inl e, c', evs) \<Rightarrow> (Inl e, c', evs)
      | (Inr data, c', evs) \<Rightarrow> (Inr (category_list data), c', evs))"

text \<open>A row the inner loop keeps: neither \<open>continue\<close> is taken.\<close>

definition valid_row :: "row \<Rightarrow> bool" where
  "valid_row r =
     (list_ex truthy_cell r
      \<and> \<not> (length r < 2 \<or> \<not> truthy_cell (r ! 0) \<or> \<not> truthy_cell (r ! 1)))"

text \<open>
  The thumbnail as the specification words it, for comparison with \<open>first_image\<close>: the
  first entry's primary image, and the placeholder when no entry has an image.
\<close>

definition claimed_thumbnail :: "item list \<Rightarrow> cell" where
  "claimed_thumbnail items =
     (if list_ex (\<lambda>it. truthy_cell (i_image it)) items then i_image (hd items)
      else CStr PLACEHOLDER)"

section \<open>Example data\<close>

text \<open>
  The challenge \<open>signup\<close> stores for Ann at time 0 when the random number is 123456,
  a database holding only that challenge, Ann as a verified user, and a login
  challenge for her.
\<close>

definition ann_challenge :: pending_doc where
  "ann_challenge =
     \<lparr>p_name = Some (JStr ''Ann''), p_contact = JStr ''ann@x.com'',
      p_method = Some ''email'', p_password = Some ''hashed-pw123'',
      p_otp = ''123456'', p_otp_expiry = 300000000, p_login_otp = False\<rparr>"

definition ann_pending_db :: db where
  "ann_pending_db = \<lparr>users = [], pending_users = [ann_challenge]\<rparr>"

definition ann_user :: user_doc where
  "ann_user =
     \<lparr>u_id = ''65f0c0ffee'', u_name = JStr ''Ann'', u_contact = JStr ''ann@x.com'',
      u_method = ''email'', u_password = ''hashed-pw123'', u_verified = True,
      u_image = Some DEFAULT_PROFILE_PIC, u_created_at = 1000\<rparr>"

definition ann_login_challenge :: pending_doc where
  "ann_login_challenge =
     \<lparr>p_name = None, p_contact = JStr ''ann@x.com'', p_method = None, p_password = None,
      p_otp = ''654321'', p_otp_expiry = 300000000, p_login_otp = True\<rparr>"

text \<open>
  A workbook with two sheets: "Books" has a header and two valid rows, of which only
  the second has an image; "Toys" has only its header.
\<close>

definition shop_wb :: workbook where
  "shop_wb =
     [(''Books'',
        [[CStr ''id'', CStr ''title'', CStr ''author'', CStr ''price'', CStr ''image''],
         [CInt 1, CStr ''Dune'', CStr ''Herbert'', CInt 9, CNone],
         [CInt 2, CStr ''Emma'', CStr ''Austen'', CInt 7, CStr ''emma.png'']]),
      (''Toys'', [[CStr ''id'', CStr ''title'']])]"

section \<open>Facts about the store operations\<close>

lemma str_nat_123456: "str_nat 123456 = ''123456''"
  by (simp add: str_nat.simps)

lemma set_delete_one_subset: "set (delete_one P xs) \<subseteq> set xs"
  by (induction xs) auto

lemma distinct_map_delete_one:
  "distinct (map f xs) \<Longrightarrow> distinct (map f (delete_one P xs))"
proof (induction xs)
  case Nil
  then show ?case by simp
next
  case (Cons x xs)
  have "f x \<notin> f ` set (delete_one P xs)"
    using Cons.prems set_delete_one_subset [of P xs] by auto
  with Cons show ?case by simp
qed

lemma delete_one_key:
  "distinct (map f xs) \<Longrightarrow> delete_one (\<lambda>d. f d = c) xs = filter (\<lambda>d. f d \<noteq> c) xs"
proof (induction xs)
  case Nil
  then show ?case by simp
next
  case (Cons x xs)
  show ?case
  proof (cases "f x = c")
    case True
    with Cons.prems have "\<forall>d\<in>set xs. f d \<noteq> c" by (metis distinct.simps(2) imageI list.simps(9) set_map)
    then have "filter (\<lambda>d. f d \<noteq> c) xs = xs" by (simp add: filter_id_conv)
    with True show ?thesis by simp
  next
    case False
    with Cons show ?thesis by simp
  qed
qed

lemma find_one_Some: "find_one P xs = Some r \<Longrightarrow> r \<in> set xs \<and> P r"
  unfolding find_one_def by (induction xs) (auto split: if_splits)

lemma find_one_None: "find_one P xs = None \<longleftrightarrow> (\<forall>x\<in>set xs. \<not> P x)"
  unfolding find_one_def by (auto simp: find_None_iff)

lemma find_one_key:
  "distinct (map f xs) \<Longrightarrow> r \<in> set xs \<Longrightarrow> Q r \<Longrightarrow>
   find_one (\<lambda>d. f d = f r \<and> Q d) xs = Some r"
  unfolding find_one_def
proof (induction xs)
  case Nil
  then show ?case by simp
next
  case (Cons x xs)
  then show ?case by (cases "x = r") (auto simp: image_iff)
qed

lemma at_most_one_distinct:
  "(\<forall>c. length (filter (\<lambda>d. f d = c) xs) \<le> 1) \<longleftrightarrow> distinct (map f xs)"
proof (induction xs)
  case Nil
  then show ?case by simp
next
  case (Cons x xs)
  show ?case
  proof
    assume a: "\<forall>c. length (filter (\<lambda>d. f d = c) (x # xs)) \<le> 1"
    have "\<forall>c. length (filter (\<lambda>d. f d = c) xs) \<le> 1"
    proof
      fix c show "length (filter (\<lambda>d. f d = c) xs) \<le> 1"
        using a [rule_format, of c] by (simp split: if_splits)
    qed
    then have d: "distinct (map f xs)" using Cons.IH by simp
    have "filter (\<lambda>d. f d = f x) xs = []"
      using a [rule_format, of "f x"] by simp
    then have "f x \<notin> f ` set xs" by (auto simp: filter_empty_conv)
    with d show "distinct (map f (x # xs))" by simp
  next
    assume d: "distinct (map f (x # xs))"
    then have ih: "\<forall>c. length (filter (\<lambda>d. f d = c) xs) \<le> 1" using Cons.IH by simp
    from d have "filter (\<lambda>d. f d = f x) xs = []"
      by (metis (mono_tags, lifting) distinct.simps(2) filter_False imageI list.simps(9) set_map)
    with ih show "\<forall>c. length (filter (\<lambda>d. f d = c) (x # xs)) \<le> 1" by auto
  qed
qed

section \<open>Signup verification\<close>

lemma users_signup: "users (snd (signup s name contact password now rnd hash_result send_result)) = users s"
  by (simp add: signup_def Let_def split: sum.splits option.splits)

lemma users_login: "users (snd (login s contact password check)) = users s"
  by (simp add: login_def split: option.splits sum.splits bool.splits)

lemma users_send_login_otp: "users (snd (send_login_otp s contact now rnd send_result)) = users s"
  by (simp add: send_login_otp_def Let_def split: option.splits)

lemma users_verify_login_otp: "users (snd (verify_login_otp s contact otp now)) = users s"
  by (simp add: verify_login_otp_def Let_def split: option.splits)

lemma users_verify_otp_failed:
  "fst (verify_otp s contact otp now created oid) \<noteq> Inr (Message ''Account verified successfully'', 200)
   \<Longrightarrow> users (snd (verify_otp s contact otp now created oid)) = users s"
  by (simp add: verify_otp_def split: option.splits if_splits)

text \<open>
  C1. When the at-most-one-challenge invariant holds and \<open>verify_otp\<close> finds for the
  contact a signup-type challenge (carrying the name and password hash \<open>signup\<close> stored)
  that has not expired, the exactly matching OTP makes it answer 200, append to \<open>users\<close>
  a document with the challenge's name, contact and password hash, \<open>verified = True\<close>,
  the default image and the clock reading as \<open>created_at\<close>, and delete that challenge,
  leaving none for the contact. No other operation changes \<open>users\<close>: not \<open>signup\<close>,
  \<open>login\<close>, \<open>send_login_otp\<close>, \<open>verify_login_otp\<close>, a reclaimer sweep, nor a
  \<open>verify_otp\<close> that answers anything else.
\<close>

theorem verify_otp_creates_user:
  assumes one: "distinct (map p_contact (pending_users s))"
    and found: "find_one (\<lambda>d. p_contact d = contact \<and> p_login_otp d = False) (pending_users s) = Some r"
    and nm: "p_name r = Some name"
    and pw: "p_password r = Some hashed_pw"
    and live: "now \<le> p_otp_expiry r"
    and match: "otp = JStr (p_otp r)"
  shows "verify_otp s contact otp now created oid =
           (Inr (Message ''Account verified successfully'', 200),
            \<lparr>users = users s @
               [\<lparr>u_id = oid, u_name = name, u_contact = contact, u_method = ''email'',
                 u_password = hashed_pw, u_verified = True,
                 u_image = Some DEFAULT_PROFILE_PIC, u_created_at = created\<rparr>],
             pending_users = filter (\<lambda>d. d \<noteq> r) (pending_users s)\<rparr>)
         \<and> challenges_for contact (pending_users (snd (verify_otp s contact otp now created oid))) = []
         \<and> users (snd (signup s1 name1 contact1 password1 now1 rnd1 hash_result1 send_result1)) = users s1
         \<and> users (snd (login s2 contact2 password2 check2)) = users s2
         \<and> users (snd (send_login_otp s3 contact3 now3 rnd3 send_result3)) = users s3
         \<and> users (snd (verify_login_otp s4 contact4 otp4 now4)) = users s4
         \<and> users (step s5 (OpSweep now5)) = users s5
         \<and> (fst (verify_otp s6 contact6 otp6 now6 created6 oid6)
               \<noteq> Inr (Message ''Account verified successfully'', 200)
             \<longrightarrow> users (snd (verify_otp s6 contact6 otp6 now6 created6 oid6)) = users s6)"
proof -
  from found have r: "r \<in> set (pending_users s)" "p_contact r = contact"
    using find_one_Some [OF found] by auto
  have del: "delete_one (\<lambda>d. p_contact d = contact) (pending_users s)
               = filter (\<lambda>d. p_contact d \<noteq> contact) (pending_users s)"
    using one by (rule delete_one_key)
  have same: "filter (\<lambda>d. p_contact d \<noteq> contact) (pending_users s)
               = filter (\<lambda>d. d \<noteq> r) (pending_users s)"
  proof (rule filter_cong [OF refl])
    fix d assume d: "d \<in> set (pending_users s)"
    show "(p_contact d \<noteq> contact) = (d \<noteq> r)"
      using one d r by (auto simp: distinct_map dest: inj_onD)
  qed
  have main: "verify_otp s contact otp now created oid =
           (Inr (Message ''Account verified successfully'', 200),
            \<lparr>users = users s @
               [\<lparr>u_id = oid, u_name = name, u_contact = contact, u_method = ''email'',
                 u_password = hashed_pw, u_verified = True,
                 u_image = Some DEFAULT_PROFILE_PIC, u_created_at = created\<rparr>],
             pending_users = filter (\<lambda>d. d \<noteq> r) (pending_users s)\<rparr>)"
    using found nm pw live match r(2)
    by (simp add: verify_otp_def insert_one_def del same)
  have gone: "challenges_for contact (pending_users (snd (verify_otp s contact otp now created oid))) = []"
    unfolding main using same [symmetric] by (simp add: challenges_for_def filter_empty_conv)
  show ?thesis
    using main gone users_signup users_login users_send_login_otp users_verify_login_otp
      users_verify_otp_failed
    by simp
qed

theorem verify_otp_creates_user_witness:
  "distinct (map p_contact (pending_users ann_pending_db))
   \<and> find_one (\<lambda>d. p_contact d = JStr ''ann@x.com'' \<and> p_login_otp d = False)
         (pending_users ann_pending_db) = Some ann_challenge
   \<and> p_name ann_challenge = Some (JStr ''Ann'')
   \<and> p_password ann_challenge = Some ''hashed-pw123''
   \<and> (299999999::int) \<le> p_otp_expiry ann_challenge
   \<and> JStr ''123456'' = JStr (p_otp ann_challenge)
   \<and> verify_otp ann_pending_db (JStr ''ann@x.com'') (JStr ''123456'') 299999999 300000007 ''65f0c0ffee'' =
       (Inr (Message ''Account verified successfully'', 200),
        \<lparr>users =
           [\<lparr>u_id = ''65f0c0ffee'', u_name = JStr ''Ann'', u_contact = JStr ''ann@x.com'',
             u_method = ''email'', u_password = ''hashed-pw123'', u_verified = True,
             u_image = Some DEFAULT_PROFILE_PIC, u_created_at = 300000007\<rparr>],
         pending_users = []\<rparr>)"
proof -
  have h1: "distinct (map p_contact (pending_users ann_pending_db))"
    by (simp add: ann_pending_db_def)
  have h2: "find_one (\<lambda>d. p_contact d = JStr ''ann@x.com'' \<and> p_login_otp d = False)
         (pending_users ann_pending_db) = Some ann_challenge"
    by (simp add: ann_pending_db_def ann_challenge_def find_one_def)
  have h3: "p_name ann_challenge = Some (JStr ''Ann'')" by (simp add: ann_challenge_def)
  have h4: "p_password ann_challenge = Some ''hashed-pw123''" by (simp add: ann_challenge_def)
  have h5: "(299999999::int) \<le> p_otp_expiry ann_challenge" by (simp add: ann_challenge_def)
  have h6: "JStr ''123456'' = JStr (p_otp ann_challenge)" by (simp add: ann_challenge_def)
  show ?thesis
    using h1 h2 h3 h4 h5 h6
      verify_otp_creates_user [OF h1 h2 h3 h4 h5 h6, of 300000007 "''65f0c0ffee''"]
    by (simp add: ann_pending_db_def)
qed

section \<open>Expiry of a challenge\<close>

lemma challenges_for_replaced:
  "p_contact d = c \<Longrightarrow>
   challenges_for c (insert_one d (delete_many (\<lambda>x. p_contact x = c) p)) = [d]"
  by (simp add: challenges_for_def insert_one_def delete_many_def filter_empty_conv)

lemma signup_challenge:
  assumes "fst (signup s name contact password now rnd hash_result send_result)
             = Inr (Message ''Signup OTP sent to email'', 200)"
  shows "\<exists>d. challenges_for contact
               (pending_users (snd (signup s name contact password now rnd hash_result send_result))) = [d]
             \<and> p_otp_expiry d = bson_datetime (now + OTP_TTL) \<and> p_login_otp d = False
             \<and> p_otp d = str_nat rnd"
  using assms
  by (auto simp: signup_def Let_def challenges_for_replaced split: if_splits sum.splits option.splits)

lemma send_login_otp_challenge:
  assumes "fst (send_login_otp s contact now rnd send_result)
             = Inr (Message ''Login OTP sent to email'', 200)"
  shows "\<exists>d. challenges_for contact
               (pending_users (snd (send_login_otp s contact now rnd send_result))) = [d]
             \<and> p_otp_expiry d = bson_datetime (now + OTP_TTL) \<and> p_login_otp d = True
             \<and> p_otp d = str_nat rnd"
  using assms
  by (auto simp: send_login_otp_def Let_def challenges_for_replaced split: if_splits option.splits)

lemma delete_one_only:
  assumes one: "distinct (map p_contact p)" and r: "r \<in> set p"
  shows "delete_one (\<lambda>d. p_contact d = p_contact r) p = filter (\<lambda>d. d \<noteq> r) p"
proof -
  have "filter (\<lambda>d. p_contact d \<noteq> p_contact r) p = filter (\<lambda>d. d \<noteq> r) p"
  proof (rule filter_cong [OF refl])
    fix d assume "d \<in> set p"
    then show "(p_contact d \<noteq> p_contact r) = (d \<noteq> r)"
      using one r by (auto simp: distinct_map dest: inj_onD)
  qed
  then show ?thesis using delete_one_key [OF one] by simp
qed

lemma challenges_for_removed:
  assumes one: "distinct (map p_contact p)" and r: "r \<in> set p"
  shows "challenges_for (p_contact r) (filter (\<lambda>d. d \<noteq> r) p) = []"
proof -
  have "\<forall>d\<in>set p. p_contact d = p_contact r \<longrightarrow> d = r"
    using one r by (auto simp: distinct_map dest: inj_onD)
  then show ?thesis by (auto simp: challenges_for_def filter_empty_conv)
qed

lemma bson_datetime_bounds: "bson_datetime t \<le> t \<and> t < bson_datetime t + 1000"
proof -
  have "t = (t div 1000) * 1000 + t mod 1000" by simp
  moreover have "0 \<le> t mod 1000" "t mod 1000 < 1000" by simp_all
  ultimately show ?thesis unfolding bson_datetime_def by linarith
qed

text \<open>
  C2, as the claim states it, fails inside the last millisecond. \<open>signup\<close> at time 999
  (microseconds) stores the expiry 300000999 cut to 300000000; at time 300000500, still
  before five minutes have passed since the creation, \<open>verify_otp\<close> with the right OTP
  answers "expired" and deletes the challenge.
\<close>

theorem expired_before_five_minutes:
  "signup init_db (JStr ''Ann'') (JStr ''ann@x.com'') (JStr ''pw123'') 999 123456
      (Inr ''hashed-pw123'') None
     = (Inr (Message ''Signup OTP sent to email'', 200), ann_pending_db)
   \<and> (300000500::int) \<le> 999 + OTP_TTL
   \<and> verify_otp ann_pending_db (JStr ''ann@x.com'') (JStr ''123456'') 300000500 300000501
        ''65f0c0ffee''
     = (Inr (Error ''OTP expired. Please sign up again.'', 400),
        \<lparr>users = [], pending_users = []\<rparr>)"
  by (simp add: signup_def verify_otp_def init_db_def find_one_def delete_many_def
        insert_one_def str_nat_123456 OTP_TTL_def bson_datetime_def ann_pending_db_def
        ann_challenge_def)

text \<open>
  C2, amended. Take a pending challenge of either type created at time \<open>T\<close>, in a database
  with at most one challenge per contact: its stored expiry is \<open>T + OTP_TTL\<close> (five
  minutes) cut to the whole millisecond, \<open>bson_datetime (T + OTP_TTL)\<close>, which is at most
  \<open>T + OTP_TTL\<close> and less than a millisecond before it. The verification handler of its
  type answers "expired" exactly when \<open>now\<close> is after the stored expiry, hence always
  when \<open>now > T + OTP_TTL\<close>, and never "not found"; when it answers "expired" it has
  deleted that challenge and none is left for the contact. \<open>signup\<close> and
  \<open>send_login_otp\<close> that answer 200 at time \<open>T\<close> leave exactly one challenge for the
  contact, of their type, with that stored expiry.
\<close>

theorem verification_expiry:
  assumes one: "distinct (map p_contact (pending_users s))"
    and r: "r \<in> set (pending_users s)"
    and c: "p_contact r = contact"
    and created: "p_otp_expiry r = bson_datetime (T + OTP_TTL)"
  shows "(p_login_otp r \<longrightarrow>
            (fst (verify_login_otp s contact otp now) = Inr (Error ''OTP expired'', 400))
              = (\<not> now \<le> bson_datetime (T + OTP_TTL))
            \<and> (now > T + OTP_TTL \<longrightarrow>
                 fst (verify_login_otp s contact otp now) = Inr (Error ''OTP expired'', 400))
            \<and> fst (verify_login_otp s contact otp now) \<noteq> Inr (Error ''No OTP login request found'', 404)
            \<and> (now > bson_datetime (T + OTP_TTL) \<longrightarrow>
                 snd (verify_login_otp s contact otp now)
                   = s\<lparr>pending_users := filter (\<lambda>d. d \<noteq> r) (pending_users s)\<rparr>
                 \<and> challenges_for contact (pending_users (snd (verify_login_otp s contact otp now))) = []))
         \<and> (\<not> p_login_otp r \<longrightarrow>
            (fst (verify_otp s contact otp now created_at oid)
               = Inr (Error ''OTP expired. Please sign up again.'', 400))
              = (\<not> now \<le> bson_datetime (T + OTP_TTL))
            \<and> (now > T + OTP_TTL \<longrightarrow>
                 fst (verify_otp s contact otp now created_at oid)
                   = Inr (Error ''OTP expired. Please sign up again.'', 400))
            \<and> fst (verify_otp s contact otp now created_at oid) \<noteq> Inr (Error ''No OTP request found'', 404)
            \<and> (now > bson_datetime (T + OTP_TTL) \<longrightarrow>
                 snd (verify_otp s contact otp now created_at oid)
                   = s\<lparr>pending_users := filter (\<lambda>d. d \<noteq> r) (pending_users s)\<rparr>
                 \<and> challenges_for contact (pending_users (snd (verify_otp s contact otp now created_at oid))) = []))
         \<and> (fst (signup s1 name1 contact1 password1 T1 rnd1 hash_result1 send_result1)
               = Inr (Message ''Signup OTP sent to email'', 200) \<longrightarrow>
             (\<exists>d. challenges_for contact1
                    (pending_users (snd (signup s1 name1 contact1 password1 T1 rnd1 hash_result1 send_result1))) = [d]
                  \<and> p_otp_expiry d = bson_datetime (T1 + OTP_TTL) \<and> p_login_otp d = False
                  \<and> p_otp d = str_nat rnd1))
         \<and> (fst (send_login_otp s2 contact2 T2 rnd2 send_result2)
               = Inr (Message ''Login OTP sent to email'', 200) \<longrightarrow>
             (\<exists>d. challenges_for contact2
                    (pending_users (snd (send_login_otp s2 contact2 T2 rnd2 send_result2))) = [d]
                  \<and> p_otp_expiry d = bson_datetime (T2 + OTP_TTL) \<and> p_login_otp d = True
                  \<and> p_otp d = str_nat rnd2))
         \<and> OTP_TTL = 5 * 60 * 1000000
         \<and> bson_datetime (T + OTP_TTL) \<le> T + OTP_TTL
         \<and> T + OTP_TTL < bson_datetime (T + OTP_TTL) + 1000"
  (is "(_ \<longrightarrow> ?L) \<and> (_ \<longrightarrow> ?S) \<and> ?C1 \<and> ?C2 \<and> ?ttl \<and> ?lo \<and> ?hi")
proof -
  have del: "delete_one (\<lambda>d. p_contact d = contact) (pending_users s)
               = filter (\<lambda>d. d \<noteq> r) (pending_users s)"
    using delete_one_only [OF one r] c by simp
  have gone: "challenges_for contact (filter (\<lambda>d. d \<noteq> r) (pending_users s)) = []"
    using challenges_for_removed [OF one r] c by simp
  have lo: ?lo and hi: ?hi using bson_datetime_bounds [of "T + OTP_TTL"] by simp_all
  have L: ?L if "p_login_otp r"
  proof -
    have f: "find_one (\<lambda>d. p_contact d = contact \<and> p_login_otp d = True) (pending_users s) = Some r"
      using find_one_key [OF one r, of "\<lambda>d. p_login_otp d = True"] that c by simp
    show ?thesis
      using f created del gone lo
      by (simp add: verify_login_otp_def Let_def profile_def split: option.splits)
  qed
  have S: ?S if "\<not> p_login_otp r"
  proof -
    have f: "find_one (\<lambda>d. p_contact d = contact \<and> p_login_otp d = False) (pending_users s) = Some r"
      using find_one_key [OF one r, of "\<lambda>d. p_login_otp d = False"] that c by simp
    show ?thesis
      using f created del gone lo
      by (simp add: verify_otp_def split: option.splits)
  qed
  have C1: ?C1 using signup_challenge by blast
  have C2: ?C2 using send_login_otp_challenge by blast
  have ttl: ?ttl by (simp add: OTP_TTL_def)
  show ?thesis using L S C1 C2 ttl lo hi by blast
qed

theorem verification_expiry_witness:
  "distinct (map p_contact (pending_users ann_pending_db))
   \<and> ann_challenge \<in> set (pending_users ann_pending_db)
   \<and> p_contact ann_challenge = JStr ''ann@x.com''
   \<and> p_otp_expiry ann_challenge = bson_datetime (999 + OTP_TTL)
   \<and> \<not> p_login_otp ann_challenge
   \<and> fst (verify_otp ann_pending_db (JStr ''ann@x.com'') (JStr ''123456'') 300000001 300000002 ''65f0c0ffee'')
       = Inr (Error ''OTP expired. Please sign up again.'', 400)
   \<and> pending_users (snd (verify_otp ann_pending_db (JStr ''ann@x.com'') (JStr ''123456'') 300000001 300000002 ''65f0c0ffee'')) = []
   \<and> fst (verify_otp ann_pending_db (JStr ''ann@x.com'') (JStr ''123456'') 300000000 300000002 ''65f0c0ffee'')
       \<noteq> Inr (Error ''OTP expired. Please sign up again.'', 400)"
proof -
  have h1: "distinct (map p_contact (pending_users ann_pending_db))"
    by (simp add: ann_pending_db_def)
  have h2: "ann_challenge \<in> set (pending_users ann_pending_db)"
    by (simp add: ann_pending_db_def)
  have h3: "p_contact ann_challenge = JStr ''ann@x.com''" by (simp add: ann_challenge_def)
  have h4: "p_otp_expiry ann_challenge = bson_datetime (999 + OTP_TTL)"
    by (simp add: ann_challenge_def OTP_TTL_def bson_datetime_def)
  have h5: "\<not> p_login_otp ann_challenge" by (simp add: ann_challenge_def)
  have late: "(300000001::int) > bson_datetime (999 + OTP_TTL)"
    by (simp add: OTP_TTL_def bson_datetime_def)
  have intime: "(300000000::int) \<le> bson_datetime (999 + OTP_TTL)"
    by (simp add: OTP_TTL_def bson_datetime_def)
  note g1 = verification_expiry [OF h1 h2 h3 h4, of "JStr ''123456''" 300000001 300000002 "''65f0c0ffee''",
      THEN conjunct2, THEN conjunct1, THEN mp, OF h5]
  note g2 = verification_expiry [OF h1 h2 h3 h4, of "JStr ''123456''" 300000000 300000002 "''65f0c0ffee''",
      THEN conjunct2, THEN conjunct1, THEN mp, OF h5]
  have a: "fst (verify_otp ann_pending_db (JStr ''ann@x.com'') (JStr ''123456'') 300000001 300000002 ''65f0c0ffee'')
       = Inr (Error ''OTP expired. Please sign up again.'', 400)"
    using g1 [THEN conjunct1] late by (simp add: not_le)
  have b: "snd (verify_otp ann_pending_db (JStr ''ann@x.com'') (JStr ''123456'') 300000001 300000002 ''65f0c0ffee'')
       = ann_pending_db\<lparr>pending_users := filter (\<lambda>d. d \<noteq> ann_challenge) (pending_users ann_pending_db)\<rparr>"
    using g1 [THEN conjunct2, THEN conjunct2, THEN conjunct2] late by blast
  have c: "fst (verify_otp ann_pending_db (JStr ''ann@x.com'') (JStr ''123456'') 300000000 300000002 ''65f0c0ffee'')
       \<noteq> Inr (Error ''OTP expired. Please sign up again.'', 400)"
    using g2 [THEN conjunct1] intime by simp
  have b': "pending_users (snd (verify_otp ann_pending_db (JStr ''ann@x.com'') (JStr ''123456'') 300000001 300000002 ''65f0c0ffee'')) = []"
    unfolding b by (simp add: ann_pending_db_def)
  show ?thesis using h1 h2 h3 h4 h5 a b' c by blast
qed

section \<open>Wrong OTP and the login without a user\<close>

text \<open>
  C5. When a verification handler finds an unexpired challenge of its type and the
  submitted OTP is not the stored OTP as a string (a JSON number never is), it answers
  "Invalid OTP" (400) and returns the database unchanged. A later attempt with the
  stored OTP, still before the expiry, then succeeds: \<open>verify_otp\<close> answers 200 when the
  challenge carries the name and password hash, and \<open>verify_login_otp\<close> answers the
  profile of the user when there is one.
\<close>

theorem wrong_otp_keeps_challenge:
  assumes found: "find_one (\<lambda>d. p_contact d = contact \<and> p_login_otp d = b) (pending_users s) = Some r"
    and live: "now \<le> p_otp_expiry r"
    and wrong: "otp \<noteq> JStr (p_otp r)"
    and live2: "now2 \<le> p_otp_expiry r"
  shows "(b \<longrightarrow>
            verify_login_otp s contact otp now = (Inr (Error ''Invalid OTP'', 400), s)
            \<and> (\<forall>u. find_one (\<lambda>u. u_contact u = contact) (users s) = Some u \<longrightarrow>
                  fst (verify_login_otp (snd (verify_login_otp s contact otp now))
                         contact (JStr (p_otp r)) now2) = Inr (profile u)))
       \<and> (\<not> b \<longrightarrow>
            verify_otp s contact otp now created oid = (Inr (Error ''Invalid OTP'', 400), s)
            \<and> (\<forall>name hashed_pw. p_name r = Some name \<and> p_password r = Some hashed_pw \<longrightarrow>
                  fst (verify_otp (snd (verify_otp s contact otp now created oid))
                         contact (JStr (p_otp r)) now2 created2 oid2)
                    = Inr (Message ''Account verified successfully'', 200)))"
  (is "(_ \<longrightarrow> ?L) \<and> (_ \<longrightarrow> ?S)")
proof -
  have L: ?L if b
  proof -
    have f: "find_one (\<lambda>d. p_contact d = contact \<and> p_login_otp d = True) (pending_users s) = Some r"
      using found that by simp
    have first: "verify_login_otp s contact otp now = (Inr (Error ''Invalid OTP'', 400), s)"
      using f live wrong by (auto simp: verify_login_otp_def)
    have second: "fst (verify_login_otp s contact (JStr (p_otp r)) now2) = Inr (profile u)"
      if "find_one (\<lambda>u. u_contact u = contact) (users s) = Some u" for u
      using f live2 that by (simp add: verify_login_otp_def Let_def)
    show ?thesis using first second by simp
  qed
  have S: ?S if "\<not> b"
  proof -
    have f: "find_one (\<lambda>d. p_contact d = contact \<and> p_login_otp d = False) (pending_users s) = Some r"
      using found that by simp
    have first: "verify_otp s contact otp now created oid = (Inr (Error ''Invalid OTP'', 400), s)"
      using f live wrong by (auto simp: verify_otp_def)
    have second: "fst (verify_otp s contact (JStr (p_otp r)) now2 created2 oid2)
                    = Inr (Message ''Account verified successfully'', 200)"
      if "p_name r = Some name" "p_password r = Some hashed_pw" for name hashed_pw
      using f live2 that by (simp add: verify_otp_def)
    show ?thesis using first second by simp
  qed
  show ?thesis using L S by blast
qed

theorem wrong_otp_keeps_challenge_witness:
  "find_one (\<lambda>d. p_contact d = JStr ''ann@x.com'' \<and> p_login_otp d = False)
      (pending_users ann_pending_db) = Some ann_challenge
   \<and> (100::int) \<le> p_otp_expiry ann_challenge
   \<and> JInt 123456 \<noteq> JStr (p_otp ann_challenge)
   \<and> (200::int) \<le> p_otp_expiry ann_challenge
   \<and> verify_otp ann_pending_db (JStr ''ann@x.com'') (JInt 123456) 100 101 ''65f0c0ffee''
        = (Inr (Error ''Invalid OTP'', 400), ann_pending_db)
   \<and> fst (verify_otp
             (snd (verify_otp ann_pending_db (JStr ''ann@x.com'') (JInt 123456) 100 101 ''65f0c0ffee''))
             (JStr ''ann@x.com'') (JStr ''123456'') 200 201 ''65f0c0ffee'')
        = Inr (Message ''Account verified successfully'', 200)"
proof -
  have h1: "find_one (\<lambda>d. p_contact d = JStr ''ann@x.com'' \<and> p_login_otp d = False)
      (pending_users ann_pending_db) = Some ann_challenge"
    by (simp add: ann_pending_db_def ann_challenge_def find_one_def)
  have h2: "(100::int) \<le> p_otp_expiry ann_challenge" by (simp add: ann_challenge_def)
  have h3: "JInt 123456 \<noteq> JStr (p_otp ann_challenge)" by simp
  have h4: "(200::int) \<le> p_otp_expiry ann_challenge" by (simp add: ann_challenge_def)
  note w = wrong_otp_keeps_challenge [OF h1 h2 h3 h4, of 101 "''65f0c0ffee''" 201 "''65f0c0ffee''",
      THEN conjunct2, THEN mp, OF not_False_eq_True [THEN iffD2, OF TrueI]]
  have nm: "p_name ann_challenge = Some (JStr ''Ann'') \<and> p_password ann_challenge = Some ''hashed-pw123''"
    by (simp add: ann_challenge_def)
  have otp: "p_otp ann_challenge = ''123456''" by (simp add: ann_challenge_def)
  have a: "verify_otp ann_pending_db (JStr ''ann@x.com'') (JInt 123456) 100 101 ''65f0c0ffee''
        = (Inr (Error ''Invalid OTP'', 400), ann_pending_db)"
    using w by (rule conjunct1)
  have b: "fst (verify_otp
             (snd (verify_otp ann_pending_db (JStr ''ann@x.com'') (JInt 123456) 100 101 ''65f0c0ffee''))
             (JStr ''ann@x.com'') (JStr ''123456'') 200 201 ''65f0c0ffee'')
        = Inr (Message ''Account verified successfully'', 200)"
    using w [THEN conjunct2, rule_format, OF nm] otp by simp
  show ?thesis using h1 h2 h3 h4 a b by blast
qed

text \<open>
  C9. \<open>verify_login_otp\<close> answers a profile only when \<open>users\<close> holds a document for the
  contact. When it finds an unexpired login challenge, the OTP matches and \<open>users\<close> has
  no document for the contact, the lookup gives \<open>None\<close>, the challenge is deleted all the
  same, and building the response raises AttributeError: the handler does not answer
  "not found" (404) or anything else.
\<close>

theorem verify_login_otp_without_user:
  assumes found: "find_one (\<lambda>d. p_contact d = contact \<and> p_login_otp d = True) (pending_users s) = Some r"
    and live: "now \<le> p_otp_expiry r"
    and match: "otp = JStr (p_otp r)"
    and nouser: "find_one (\<lambda>u. u_contact u = contact) (users s) = None"
  shows "verify_login_otp s contact otp now =
           (Inl AttributeError,
            s\<lparr>pending_users := delete_one (\<lambda>d. p_contact d = contact) (pending_users s)\<rparr>)
         \<and> (\<forall>resp. fst (verify_login_otp s contact otp now) \<noteq> Inr resp)
         \<and> (\<forall>s' contact' otp' now' name' c' uid image.
               fst (verify_login_otp s' contact' otp' now') = Inr (Profile name' c' uid image, 200)
               \<longrightarrow> (\<exists>u. find_one (\<lambda>u. u_contact u = contact') (users s') = Some u
                        \<and> profile u = (Profile name' c' uid image, 200)))"
proof -
  have crash: "verify_login_otp s contact otp now =
           (Inl AttributeError,
            s\<lparr>pending_users := delete_one (\<lambda>d. p_contact d = contact) (pending_users s)\<rparr>)"
    using found live match nouser by (simp add: verify_login_otp_def Let_def)
  have only: "\<exists>u. find_one (\<lambda>u. u_contact u = contact') (users s') = Some u
                 \<and> profile u = (Profile name' c' uid image, 200)"
    if "fst (verify_login_otp s' contact' otp' now') = Inr (Profile name' c' uid image, 200)"
    for s' contact' otp' now' name' c' uid image
    using that
    by (auto simp: verify_login_otp_def Let_def split: option.splits if_splits)
  show ?thesis using crash only by simp
qed

theorem verify_login_otp_without_user_witness:
  "find_one (\<lambda>d. p_contact d = JStr ''ann@x.com'' \<and> p_login_otp d = True)
      (pending_users \<lparr>users = [], pending_users = [ann_login_challenge]\<rparr>) = Some ann_login_challenge
   \<and> (100::int) \<le> p_otp_expiry ann_login_challenge
   \<and> JStr ''654321'' = JStr (p_otp ann_login_challenge)
   \<and> find_one (\<lambda>u. u_contact u = JStr ''ann@x.com'')
        (users \<lparr>users = [], pending_users = [ann_login_challenge]\<rparr>) = None
   \<and> verify_login_otp \<lparr>users = [], pending_users = [ann_login_challenge]\<rparr>
        (JStr ''ann@x.com'') (JStr ''654321'') 100
        = (Inl AttributeError, \<lparr>users = [], pending_users = []\<rparr>)"
proof -
  have h1: "find_one (\<lambda>d. p_contact d = JStr ''ann@x.com'' \<and> p_login_otp d = True)
      (pending_users \<lparr>users = [], pending_users = [ann_login_challenge]\<rparr>) = Some ann_login_challenge"
    by (simp add: ann_login_challenge_def find_one_def)
  have h2: "(100::int) \<le> p_otp_expiry ann_login_challenge" by (simp add: ann_login_challenge_def)
  have h3: "JStr ''654321'' = JStr (p_otp ann_login_challenge)" by (simp add: ann_login_challenge_def)
  have h4: "find_one (\<lambda>u. u_contact u = JStr ''ann@x.com'')
        (users \<lparr>users = [], pending_users = [ann_login_challenge]\<rparr>) = None"
    by (simp add: find_one_def)
  have c: "p_contact ann_login_challenge = JStr ''ann@x.com''" by (simp add: ann_login_challenge_def)
  have "verify_login_otp \<lparr>users = [], pending_users = [ann_login_challenge]\<rparr>
        (JStr ''ann@x.com'') (JStr ''654321'') 100
        = (Inl AttributeError, \<lparr>users = [], pending_users = []\<rparr>)"
    using verify_login_otp_without_user [OF h1 h2 h3 h4, THEN conjunct1] c by simp
  then show ?thesis using h1 h2 h3 h4 by blast
qed

section \<open>At most one challenge per contact\<close>

lemma distinct_replaced:
  assumes "distinct (map p_contact p)"
  shows "distinct (map p_contact (insert_one d (delete_many (\<lambda>x. p_contact x = p_contact d) p)))"
proof -
  have "distinct (map p_contact (filter (\<lambda>x. p_contact x \<noteq> p_contact d) p))"
    using assms by (rule distinct_map_filter)
  moreover have "p_contact d \<notin> p_contact ` set (filter (\<lambda>x. p_contact x \<noteq> p_contact d) p)"
    by auto
  ultimately show ?thesis by (simp add: insert_one_def delete_many_def)
qed

lemma distinct_sweep:
  "distinct (map p_contact p) \<Longrightarrow> distinct (map p_contact (sweep now p))"
  by (simp add: sweep_def delete_many_def distinct_map_filter)

lemma distinct_signup:
  assumes "distinct (map p_contact (pending_users s))"
  shows "distinct (map p_contact
           (pending_users (snd (signup s name contact password now rnd hash_result send_result))))"
proof -
  let ?d = "\<lparr>p_name = Some name, p_contact = contact, p_method = Some ''email'',
             p_password = Some (projr hash_result), p_otp = str_nat rnd,
             p_otp_expiry = bson_datetime (now + OTP_TTL), p_login_otp = False\<rparr>"
  have fresh: "distinct (map p_contact
               (insert_one ?d (delete_many (\<lambda>x. p_contact x = contact) (pending_users s))))"
    using distinct_replaced [OF assms, of ?d] by simp
  have rolled: "distinct (map p_contact
               (delete_one (\<lambda>x. p_contact x = contact)
                  (insert_one ?d (delete_many (\<lambda>x. p_contact x = contact) (pending_users s)))))"
    using fresh by (rule distinct_map_delete_one)
  show ?thesis
    using assms fresh rolled
    by (auto simp: signup_def Let_def split: sum.splits option.splits)
qed

lemma distinct_send_login_otp:
  assumes "distinct (map p_contact (pending_users s))"
  shows "distinct (map p_contact
           (pending_users (snd (send_login_otp s contact now rnd send_result))))"
proof -
  let ?d = "\<lparr>p_name = None, p_contact = contact, p_method = None, p_password = None,
             p_otp = str_nat rnd, p_otp_expiry = bson_datetime (now + OTP_TTL),
             p_login_otp = True\<rparr>"
  have fresh: "distinct (map p_contact
               (insert_one ?d (delete_many (\<lambda>x. p_contact x = contact) (pending_users s))))"
    using distinct_replaced [OF assms, of ?d] by simp
  show ?thesis
    using assms fresh
    by (auto simp: send_login_otp_def Let_def split: option.splits)
qed

lemma distinct_verify_otp:
  assumes "distinct (map p_contact (pending_users s))"
  shows "distinct (map p_contact (pending_users (snd (verify_otp s contact otp now created oid))))"
  using assms distinct_map_delete_one [OF assms, of "\<lambda>x. p_contact x = contact"]
  by (auto simp: verify_otp_def split: option.splits)

lemma distinct_verify_login_otp:
  assumes "distinct (map p_contact (pending_users s))"
  shows "distinct (map p_contact (pending_users (snd (verify_login_otp s contact otp now))))"
  using assms distinct_map_delete_one [OF assms, of "\<lambda>x. p_contact x = contact"]
  by (auto simp: verify_login_otp_def Let_def split: option.splits)

lemma pending_login: "pending_users (snd (login s contact password check)) = pending_users s"
  by (simp add: login_def split: option.splits sum.splits bool.splits)

lemma distinct_step:
  "distinct (map p_contact (pending_users s)) \<Longrightarrow> distinct (map p_contact (pending_users (step s op)))"
  by (cases op)
     (simp_all add: distinct_signup distinct_verify_otp distinct_send_login_otp
        distinct_verify_login_otp distinct_sweep pending_login)

lemma run_snoc: "run s (ops @ [op]) = step (run s ops) op"
  by (simp add: run_def)

lemma distinct_run:
  "distinct (map p_contact (pending_users s)) \<Longrightarrow> distinct (map p_contact (pending_users (run s ops)))"
proof (induction ops rule: rev_induct)
  case Nil
  then show ?case by (simp add: run_def)
next
  case (snoc op ops)
  then show ?case by (simp add: run_snoc distinct_step)
qed

text \<open>
  C3. Starting from a database with at most one pending challenge per contact, after
  every prefix of every sequence of signups, login-OTP requests, verifications, logins
  and reclaimer sweeps there is at most one pending challenge for each contact. It is
  the delete-before-insert that establishes it: whatever the database held before, a
  \<open>signup\<close> or \<open>send_login_otp\<close> that answers 200 leaves exactly one challenge for its
  contact.
\<close>

theorem at_most_one_challenge:
  assumes "\<forall>c. length (challenges_for c (pending_users s)) \<le> 1"
  shows "length (challenges_for c (pending_users (run s (take k ops)))) \<le> 1
         \<and> (fst (signup s1 name1 contact1 password1 now1 rnd1 hash_result1 send_result1)
               = Inr (Message ''Signup OTP sent to email'', 200) \<longrightarrow>
             length (challenges_for contact1
               (pending_users (snd (signup s1 name1 contact1 password1 now1 rnd1 hash_result1 send_result1)))) = 1)
         \<and> (fst (send_login_otp s2 contact2 now2 rnd2 send_result2)
               = Inr (Message ''Login OTP sent to email'', 200) \<longrightarrow>
             length (challenges_for contact2
               (pending_users (snd (send_login_otp s2 contact2 now2 rnd2 send_result2)))) = 1)"
proof -
  have "distinct (map p_contact (pending_users s))"
    using assms at_most_one_distinct [of p_contact "pending_users s"]
    by (simp add: challenges_for_def)
  then have "distinct (map p_contact (pending_users (run s (take k ops))))"
    by (rule distinct_run)
  then have "\<forall>c. length (filter (\<lambda>d. p_contact d = c) (pending_users (run s (take k ops)))) \<le> 1"
    using at_most_one_distinct [of p_contact "pending_users (run s (take k ops))"] by simp
  then have inv: "length (challenges_for c (pending_users (run s (take k ops)))) \<le> 1"
    by (simp add: challenges_for_def)
  have a: "length (challenges_for contact1
               (pending_users (snd (signup s1 name1 contact1 password1 now1 rnd1 hash_result1 send_result1)))) = 1"
    if "fst (signup s1 name1 contact1 password1 now1 rnd1 hash_result1 send_result1)
               = Inr (Message ''Signup OTP sent to email'', 200)"
    using signup_challenge [OF that] by auto
  have b: "length (challenges_for contact2
               (pending_users (snd (send_login_otp s2 contact2 now2 rnd2 send_result2)))) = 1"
    if "fst (send_login_otp s2 contact2 now2 rnd2 send_result2)
               = Inr (Message ''Login OTP sent to email'', 200)"
    using send_login_otp_challenge [OF that] by auto
  show ?thesis by (intro conjI impI) (rule inv, erule a, erule b)
qed

lemma run_ann_signup:
  "run init_db [OpSignup (JStr ''Ann'') (JStr ''ann@x.com'') (JStr ''pw123'') 0 123456
                  (Inr ''hashed-pw123'') None] = ann_pending_db"
  by (simp add: run_def signup_def init_db_def find_one_def delete_many_def insert_one_def
        str_nat_123456 OTP_TTL_def bson_datetime_def ann_pending_db_def ann_challenge_def)

theorem at_most_one_challenge_witness:
  "(\<forall>c. length (challenges_for c (pending_users init_db)) \<le> 1)
   \<and> length (challenges_for (JStr ''ann@x.com'')
        (pending_users (run init_db
           (take 3 [OpSignup (JStr ''Ann'') (JStr ''ann@x.com'') (JStr ''pw123'') 0 123456
                      (Inr ''hashed-pw123'') None,
                    OpSignup (JStr ''Ann'') (JStr ''ann@x.com'') (JStr ''pw123'') 7 123456
                      (Inr ''hashed-pw123'') None,
                    OpSweep 8])))) \<le> 1"
proof -
  have h: "\<forall>c. length (challenges_for c (pending_users init_db)) \<le> 1"
    by (simp add: init_db_def challenges_for_def)
  from h at_most_one_challenge [OF h, THEN conjunct1] show ?thesis by (rule conjI)
qed

section \<open>Requests without a contact\<close>

text \<open>The stored contacts are truthy: \<open>signup\<close> refuses a falsy contact.\<close>

lemma truthy_signup:
  assumes "\<forall>u\<in>set (users s). truthy (u_contact u)"
    and "\<forall>d\<in>set (pending_users s). truthy (p_contact d)"
  shows "(\<forall>u\<in>set (users (snd (signup s name contact password now rnd hash_result send_result))).
            truthy (u_contact u))
       \<and> (\<forall>d\<in>set (pending_users (snd (signup s name contact password now rnd hash_result send_result))).
            truthy (p_contact d))"
proof (cases "truthy contact")
  case False
  then show ?thesis using assms by (simp add: signup_def)
next
  case True
  have p2: "\<forall>d\<in>set (insert_one
                      \<lparr>p_name = n, p_contact = contact, p_method = m, p_password = pw,
                       p_otp = ot, p_otp_expiry = e, p_login_otp = l\<rparr>
                      (delete_many (\<lambda>d. p_contact d = contact) (pending_users s))).
              truthy (p_contact d)" for n m pw ot e l
    using assms(2) True by (auto simp: insert_one_def delete_many_def)
  have p3: "\<forall>d\<in>set (delete_one P (insert_one
                      \<lparr>p_name = n, p_contact = contact, p_method = m, p_password = pw,
                       p_otp = ot, p_otp_expiry = e, p_login_otp = l\<rparr>
                      (delete_many (\<lambda>d. p_contact d = contact) (pending_users s)))).
              truthy (p_contact d)" for n m pw ot e l P
    using p2 [of n m pw ot e l] set_delete_one_subset [of P] by blast
  show ?thesis
    using assms p2 p3
    by (simp add: signup_def Let_def split: sum.splits option.splits)
qed

lemma truthy_send_login_otp:
  assumes "\<forall>u\<in>set (users s). truthy (u_contact u)"
    and "\<forall>d\<in>set (pending_users s). truthy (p_contact d)"
  shows "(\<forall>u\<in>set (users (snd (send_login_otp s contact now rnd send_result))). truthy (u_contact u))
       \<and> (\<forall>d\<in>set (pending_users (snd (send_login_otp s contact now rnd send_result))).
            truthy (p_contact d))"
proof (cases "find_one (\<lambda>u. u_contact u = contact) (users s)")
  case None
  then show ?thesis using assms by (simp add: send_login_otp_def)
next
  case (Some u)
  then have "truthy contact" using find_one_Some [OF Some] assms(1) by auto
  then show ?thesis
    using assms Some
    by (auto simp: send_login_otp_def Let_def insert_one_def delete_many_def split: option.splits)
qed

lemma truthy_verify_otp:
  assumes "\<forall>u\<in>set (users s). truthy (u_contact u)"
    and "\<forall>d\<in>set (pending_users s). truthy (p_contact d)"
  shows "(\<forall>u\<in>set (users (snd (verify_otp s contact otp now created oid))). truthy (u_contact u))
       \<and> (\<forall>d\<in>set (pending_users (snd (verify_otp s contact otp now created oid))).
            truthy (p_contact d))"
proof (cases "find_one (\<lambda>d. p_contact d = contact \<and> p_login_otp d = False) (pending_users s)")
  case None
  then show ?thesis using assms by (simp add: verify_otp_def)
next
  case (Some r)
  then have r: "truthy (p_contact r)" using find_one_Some [OF Some] assms(2) by auto
  have sub: "\<forall>d\<in>set (delete_one (\<lambda>d. p_contact d = contact) (pending_users s)). truthy (p_contact d)"
    using assms(2) set_delete_one_subset by fastforce
  show ?thesis
    using assms Some r sub
    by (auto simp: verify_otp_def insert_one_def split: option.splits)
qed

lemma truthy_verify_login_otp:
  assumes "\<forall>u\<in>set (users s). truthy (u_contact u)"
    and "\<forall>d\<in>set (pending_users s). truthy (p_contact d)"
  shows "(\<forall>u\<in>set (users (snd (verify_login_otp s contact otp now))). truthy (u_contact u))
       \<and> (\<forall>d\<in>set (pending_users (snd (verify_login_otp s contact otp now))). truthy (p_contact d))"
proof -
  have sub: "\<forall>d\<in>set (delete_one (\<lambda>d. p_contact d = contact) (pending_users s)). truthy (p_contact d)"
    using assms(2) set_delete_one_subset by fastforce
  show ?thesis
    using assms sub
    by (auto simp: verify_login_otp_def Let_def split: option.splits)
qed

lemma truthy_step:
  assumes "\<forall>u\<in>set (users s). truthy (u_contact u)"
    and "\<forall>d\<in>set (pending_users s). truthy (p_contact d)"
  shows "(\<forall>u\<in>set (users (step s op)). truthy (u_contact u))
       \<and> (\<forall>d\<in>set (pending_users (step s op)). truthy (p_contact d))"
proof (cases op)
  case (OpSignup name contact password now rnd hash_result send_result)
  then show ?thesis using truthy_signup [OF assms] by simp
next
  case (OpVerifyOtp contact otp now created oid)
  then show ?thesis using truthy_verify_otp [OF assms] by simp
next
  case (OpLogin contact password check)
  then show ?thesis using assms by (simp add: users_login pending_login)
next
  case (OpSendLoginOtp contact now rnd send_result)
  then show ?thesis using truthy_send_login_otp [OF assms] by simp
next
  case (OpVerifyLoginOtp contact otp now)
  then show ?thesis using truthy_verify_login_otp [OF assms] by simp
next
  case (OpSweep now)
  then show ?thesis using assms by (simp add: sweep_def delete_many_def)
qed

lemma truthy_run:
  "(\<forall>u\<in>set (users (run init_db ops)). truthy (u_contact u))
   \<and> (\<forall>d\<in>set (pending_users (run init_db ops)). truthy (p_contact d))"
proof (induction ops rule: rev_induct)
  case Nil
  then show ?case by (simp add: run_def init_db_def)
next
  case (snoc op ops)
  then show ?case using truthy_step [of "run init_db ops" op] by (simp add: run_snoc)
qed

text \<open>
  C10. In every database the handlers and sweeps produce from the empty one, a request
  whose contact is missing (\<open>JNull\<close>) or the empty string finds nothing: \<open>verify_otp\<close>,
  \<open>verify_login_otp\<close>, \<open>login\<close> and \<open>send_login_otp\<close> answer 404 ("No OTP request
  found", "No OTP login request found", "User not found") and not the 400 of a missing
  field, and return the database unchanged.
\<close>

theorem empty_contact_not_found:
  assumes "contact = JNull \<or> contact = JStr ''''"
    and "s = run init_db ops"
  shows "verify_otp s contact otp now created oid = (Inr (Error ''No OTP request found'', 404), s)
       \<and> verify_login_otp s contact otp now = (Inr (Error ''No OTP login request found'', 404), s)
       \<and> login s contact password check = (Inr (Error ''User not found'', 404), s)
       \<and> send_login_otp s contact now rnd send_result = (Inr (Error ''User not found'', 404), s)"
proof -
  have falsy: "\<not> truthy contact" using assms(1) by auto
  have u: "\<forall>u\<in>set (users s). u_contact u \<noteq> contact"
    using truthy_run [of ops] assms(2) falsy by auto
  have p: "\<forall>d\<in>set (pending_users s). p_contact d \<noteq> contact"
    using truthy_run [of ops] assms(2) falsy by auto
  have fu: "find_one (\<lambda>u. u_contact u = contact) (users s) = None"
    using u by (simp add: find_one_None)
  have fp: "find_one (\<lambda>d. p_contact d = contact \<and> p_login_otp d = b) (pending_users s) = None" for b
    using p by (simp add: find_one_None)
  show ?thesis
    using fu fp [of True] fp [of False]
    by (simp add: verify_otp_def verify_login_otp_def login_def send_login_otp_def)
qed

theorem empty_contact_not_found_witness:
  "(JNull = JNull \<or> JNull = JStr '''')
   \<and> ann_pending_db = run init_db [OpSignup (JStr ''Ann'') (JStr ''ann@x.com'') (JStr ''pw123'') 0 123456
                  (Inr ''hashed-pw123'') None]
   \<and> verify_otp ann_pending_db JNull (JStr ''123456'') 100 101 ''65f0c0ffee''
        = (Inr (Error ''No OTP request found'', 404), ann_pending_db)
   \<and> login ann_pending_db JNull (JStr ''pw123'') (\<lambda>h p. Inr True)
        = (Inr (Error ''User not found'', 404), ann_pending_db)"
proof -
  have h1: "JNull = JNull \<or> JNull = JStr ''''" by simp
  have h2: "ann_pending_db = run init_db [OpSignup (JStr ''Ann'') (JStr ''ann@x.com'') (JStr ''pw123'') 0 123456
                  (Inr ''hashed-pw123'') None]"
    by (simp add: run_ann_signup)
  note w = empty_contact_not_found [OF h1 h2]
  from h1 h2 w [THEN conjunct1] w [THEN conjunct2, THEN conjunct2, THEN conjunct1]
  show ?thesis by (intro conjI)
qed

section \<open>Failed sends\<close>

lemma str_nat_654321: "str_nat 654321 = ''654321''"
  by (simp add: str_nat.simps)

lemma delete_one_appended:
  "\<forall>x\<in>set xs. \<not> P x \<Longrightarrow> P d \<Longrightarrow> delete_one P (xs @ [d]) = xs"
  by (induction xs) auto

lemma signup_rollback:
  assumes "fst (signup s name contact password now rnd hash_result (Some e))
             = Inr (Error (''Failed to send OTP: '' @ e), 500)"
  shows "challenges_for contact
           (pending_users (snd (signup s name contact password now rnd hash_result (Some e)))) = []"
proof -
  have "delete_one (\<lambda>d. p_contact d = contact)
          (filter (\<lambda>x. p_contact x \<noteq> contact) (pending_users s) @ [x])
        = filter (\<lambda>x. p_contact x \<noteq> contact) (pending_users s)" if "p_contact x = contact" for x
    using that by (intro delete_one_appended) auto
  then show ?thesis
    using assms
    by (auto simp: signup_def Let_def insert_one_def delete_many_def challenges_for_def
          filter_empty_conv split: if_splits sum.splits)
qed

text \<open>
  C4. When the send fails, \<open>send_login_otp\<close> answers 500 and leaves the challenge it has
  just inserted in \<open>pending_users\<close>, where \<open>signup\<close> on the same failure deletes its own
  (\<open>signup_rollback\<close>): for Ann, a user, a failed send of the login OTP leaves her login
  challenge pending.
\<close>

theorem send_login_otp_failure_keeps_challenge:
  "send_login_otp \<lparr>users = [ann_user], pending_users = []\<rparr> (JStr ''ann@x.com'') 0 654321
      (Some ''connection refused'')
     = (Inr (Error ''Failed to send OTP: connection refused'', 500),
        \<lparr>users = [ann_user], pending_users = [ann_login_challenge]\<rparr>)
   \<and> challenges_for (JStr ''ann@x.com'')
        (pending_users (snd (send_login_otp \<lparr>users = [ann_user], pending_users = []\<rparr>
           (JStr ''ann@x.com'') 0 654321 (Some ''connection refused''))))
       = [ann_login_challenge]"
  by (simp add: send_login_otp_def find_one_def delete_many_def insert_one_def
        ann_user_def ann_login_challenge_def challenges_for_def str_nat_654321 OTP_TTL_def
        bson_datetime_def)

section \<open>The reclaimer loop\<close>

lemma clean_expired_otps_running:
  "clean_expired_otps (map (\<lambda>t. (t, None)) ts) p = (Running, foldl (\<lambda>q t. sweep t q) p ts)"
  by (induction ts arbitrary: p) auto

lemma clean_expired_otps_died:
  "clean_expired_otps (map (\<lambda>t. (t, None)) ts @ (t, Some e) # rest) p
     = (Died e, foldl (\<lambda>q t. sweep t q) p ts)"
  by (induction ts arbitrary: p) auto

text \<open>
  C7, as the claim states it, fails: the store raises in the first iteration, the
  exception leaves \<open>while True\<close> and ends the thread, and the second iteration, whose
  sweep would have deleted Ann's expired challenge, never runs.
\<close>

theorem reclaimer_dies_on_store_error:
  "clean_expired_otps [(400000000, Some StoreError), (460000000, None)] [ann_challenge]
     = (Died StoreError, [ann_challenge])
   \<and> sweep 460000000 [ann_challenge] = []"
  by (simp add: sweep_def delete_many_def ann_challenge_def)

text \<open>
  C7, amended. An exception of the store's bulk delete is not swallowed: the first
  iteration in which it is raised ends the loop with that exception; the sweeps of the
  iterations before it have been applied, and the iterations after it never run. As long
  as every bulk delete returns, the loop is still running after any number of
  iterations, each sweep applied in turn.
\<close>

theorem reclaimer_runs_until_store_error:
  "clean_expired_otps (map (\<lambda>t. (t, None)) ts @ (t, Some e) # rest) p
     = (Died e, foldl (\<lambda>q t. sweep t q) p ts)
   \<and> clean_expired_otps (map (\<lambda>t. (t, None)) ts) p
     = (Running, foldl (\<lambda>q t. sweep t q) p ts)"
  using clean_expired_otps_died clean_expired_otps_running by simp

section \<open>The catalog cache\<close>

text \<open>
  C6, as the claim states it, fails for the empty mapping. A workbook without sheets
  materializes the empty mapping at time 100; one second later, well inside the TTL, a
  load goes to the dataset again and returns what it holds by then.
\<close>

theorem empty_materialization_is_reloaded:
  "load_items_by_category init_cache 100 (Some []) 100
     = (Inr [], \<lparr>c_data = Some [], c_timestamp = 100\<rparr>, [PathExists, LoadWorkbook, PrintLoaded 0])
   \<and> 101 - c_timestamp \<lparr>c_data = Some [], c_timestamp = 100\<rparr> < CACHE_TTL
   \<and> load_items_by_category \<lparr>c_data = Some [], c_timestamp = 100\<rparr> 101 (Some [(''Toys'', [])]) 101
     = (Inr [(''Toys'', [])], \<lparr>c_data = Some [(''Toys'', [])], c_timestamp = 101\<rparr>,
        [PathExists, LoadWorkbook, PrintLoaded 1])"
  by (simp add: load_items_by_category_def init_cache_def CACHE_TTL_def)

text \<open>
  C6, amended. When the cache holds a non-empty materialization whose generation time is
  less than \<open>CACHE_TTL\<close> (10 seconds) before the clock reading, the load returns it, leaves
  the cache as it is and does no I/O. In every other case (nothing materialized yet, an
  empty mapping, or the TTL elapsed) the load starts by looking for the dataset, and
  reads it when it exists.
\<close>

theorem load_cached_iff_fresh_and_nonempty:
  "(c_data c = Some d \<and> d \<noteq> [] \<and> now - c_timestamp c < CACHE_TTL \<longrightarrow>
      load_items_by_category c now file stamp = (Inr d, c, []))
   \<and> (snd (snd (load_items_by_category c now file stamp)) = [])
        = (\<exists>d. c_data c = Some d \<and> d \<noteq> [] \<and> now - c_timestamp c < CACHE_TTL)
   \<and> (\<not> (\<exists>d. c_data c = Some d \<and> d \<noteq> [] \<and> now - c_timestamp c < CACHE_TTL) \<longrightarrow>
        hd (snd (snd (load_items_by_category c now file stamp))) = PathExists
        \<and> (\<forall>wb. file = Some wb \<longrightarrow>
              LoadWorkbook \<in> set (snd (snd (load_items_by_category c now file stamp)))))
   \<and> CACHE_TTL = 10"
proof -
  have hit: "load_items_by_category c now file stamp = (Inr d, c, [])"
    if "c_data c = Some d" "d \<noteq> []" "now - c_timestamp c < CACHE_TTL" for d
    using that by (simp add: load_items_by_category_def)
  have miss: "snd (snd (load_items_by_category c now file stamp)) \<noteq> []
      \<and> hd (snd (snd (load_items_by_category c now file stamp))) = PathExists
      \<and> (\<forall>wb. file = Some wb \<longrightarrow>
              LoadWorkbook \<in> set (snd (snd (load_items_by_category c now file stamp))))"
    if "\<not> (\<exists>d. c_data c = Some d \<and> d \<noteq> [] \<and> now - c_timestamp c < CACHE_TTL)"
    using that
    by (cases "c_data c"; cases "file")
       (auto simp: load_items_by_category_def split: sum.splits)
  have iff: "(snd (snd (load_items_by_category c now file stamp)) = [])
        = (\<exists>d. c_data c = Some d \<and> d \<noteq> [] \<and> now - c_timestamp c < CACHE_TTL)"
    using hit miss by fastforce
  show ?thesis using hit miss iff by (simp add: CACHE_TTL_def)
qed

theorem load_cached_iff_fresh_and_nonempty_witness:
  "c_data \<lparr>c_data = Some [(''Toys'', [])], c_timestamp = 101\<rparr> = Some [(''Toys'', [])]
   \<and> [(''Toys'', [])] \<noteq> ([] :: categories)
   \<and> 110.5 - c_timestamp \<lparr>c_data = Some [(''Toys'', [])], c_timestamp = 101\<rparr> < CACHE_TTL
   \<and> load_items_by_category \<lparr>c_data = Some [(''Toys'', [])], c_timestamp = 101\<rparr> 110.5
        (Some [(''Books'', [])]) 110.6
     = (Inr [(''Toys'', [])], \<lparr>c_data = Some [(''Toys'', [])], c_timestamp = 101\<rparr>, [])"
proof -
  have h: "c_data \<lparr>c_data = Some [(''Toys'', [])], c_timestamp = 101\<rparr> = Some [(''Toys'', [])]
     \<and> [(''Toys'', [])] \<noteq> ([] :: categories)
     \<and> 110.5 - c_timestamp \<lparr>c_data = Some [(''Toys'', [])], c_timestamp = 101\<rparr> < CACHE_TTL"
    by (simp add: CACHE_TTL_def)
  from load_cached_iff_fresh_and_nonempty
         [of "\<lparr>c_data = Some [(''Toys'', [])], c_timestamp = 101\<rparr>" "[(''Toys'', [])]" "110.5"
             "Some [(''Books'', [])]" "110.6", THEN conjunct1, THEN mp, OF h] h
  show ?thesis by simp
qed

section \<open>The category list\<close>

lemma read_rows_filter: "read_rows n rows = map (make_item n) (filter valid_row rows)"
  by (induction rows) (auto simp: valid_row_def)

lemma update_fresh: "k \<notin> fst ` set al \<Longrightarrow> AList.update k v al = al @ [(k, v)]"
  by (induction al) auto

lemma load_sheets_appends:
  assumes "distinct names"
    and "set names \<inter> fst ` set acc = {}"
    and "\<forall>n\<in>set names. map_of wb n \<noteq> None"
  shows "load_sheets wb names acc
           = Inr (acc @ map (\<lambda>n. (n, read_rows n (drop 1 (the (map_of wb n))))) names)"
  using assms
proof (induction names arbitrary: acc)
  case Nil
  then show ?case by simp
next
  case (Cons n names)
  from Cons.prems obtain sheet where sheet: "map_of wb n = Some sheet" by auto
  let ?acc = "acc @ [(n, read_rows n (drop 1 sheet))]"
  have fresh: "n \<notin> fst ` set acc" using Cons.prems(2) by auto
  have "load_sheets wb names ?acc
          = Inr (?acc @ map (\<lambda>n. (n, read_rows n (drop 1 (the (map_of wb n))))) names)"
  proof (rule Cons.IH)
    show "distinct names" using Cons.prems(1) by simp
    show "set names \<inter> fst ` set ?acc = {}" using Cons.prems(1,2) by auto
    show "\<forall>n\<in>set names. map_of wb n \<noteq> None" using Cons.prems(3) by simp
  qed
  then show ?case using sheet fresh by (simp add: update_fresh)
qed

lemma load_sheets_workbook:
  assumes "distinct (map fst wb)"
  shows "load_sheets wb (map fst wb) []
           = Inr (map (\<lambda>(n, rows). (n, read_rows n (drop 1 rows))) wb)"
proof -
  have found: "map_of wb n = Some rows" if "(n, rows) \<in> set wb" for n rows
    using assms that by simp
  have "load_sheets wb (map fst wb) []
          = Inr ([] @ map (\<lambda>n. (n, read_rows n (drop 1 (the (map_of wb n))))) (map fst wb))"
  proof (rule load_sheets_appends)
    show "distinct (map fst wb)" by (rule assms)
    show "set (map fst wb) \<inter> fst ` set [] = {}" by simp
    show "\<forall>n\<in>set (map fst wb). map_of wb n \<noteq> None"
      using found by fastforce
  qed
  moreover have "map (\<lambda>n. (n, read_rows n (drop 1 (the (map_of wb n))))) (map fst wb)
                   = map (\<lambda>(n, rows). (n, read_rows n (drop 1 rows))) wb"
    using found by (auto simp: map_eq_conv)
  ultimately show ?thesis by simp
qed

lemma image_make_item: "i_image (make_item n r) = col_if_set r 4"
  by (simp add: make_item_def)

lemma first_image_rows:
  "first_image (map (make_item n) rs)
     = (case find (\<lambda>r. length r > 4 \<and> truthy_cell (r ! 4)) rs of
          None \<Rightarrow> CStr [] | Some r \<Rightarrow> r ! 4)"
  by (induction rs) (auto simp: image_make_item col_if_set_def)

lemma thumbnail_rows:
  "(let thumbnail = first_image (map (make_item n) rs)
    in if truthy_cell thumbnail then thumbnail else CStr PLACEHOLDER)
     = (case find (\<lambda>r. length r > 4 \<and> truthy_cell (r ! 4)) rs of
          None \<Rightarrow> CStr PLACEHOLDER | Some r \<Rightarrow> r ! 4)"
proof (cases "find (\<lambda>r. length r > 4 \<and> truthy_cell (r ! 4)) rs")
  case None
  then show ?thesis by (simp add: first_image_rows)
next
  case (Some r)
  then have "truthy_cell (r ! 4)" by (auto simp: find_Some_iff)
  with Some show ?thesis by (simp add: first_image_rows)
qed

lemma category_list_workbook:
  "category_list (map (\<lambda>(n, rows). (n, read_rows n (drop 1 rows))) wb)
     = map (\<lambda>(n, rows).
              \<lparr>ce_name = n, ce_count = length (filter valid_row (drop 1 rows)),
               ce_thumbnail =
                 (case find (\<lambda>r. length r > 4 \<and> truthy_cell (r ! 4))
                         (filter valid_row (drop 1 rows)) of
                    None \<Rightarrow> CStr PLACEHOLDER | Some r \<Rightarrow> r ! 4)\<rparr>) wb"
  unfolding category_list_def read_rows_filter
  by (simp add: thumbnail_rows split_def del: Let_def)

lemma load_shop_wb:
  "load_sheets shop_wb (map fst shop_wb) []
     = Inr [(''Books'',
              [make_item ''Books'' [CInt 1, CStr ''Dune'', CStr ''Herbert'', CInt 9, CNone],
               make_item ''Books'' [CInt 2, CStr ''Emma'', CStr ''Austen'', CInt 7, CStr ''emma.png'']]),
            (''Toys'', [])]"
  by (simp add: shop_wb_def)

text \<open>
  C8, as the claim states it, fails when the first entry of a sheet has no image and a
  later one has: for "Books" the list gives the second entry's image as thumbnail,
  where the claim's wording gives the first entry's (empty) image.
\<close>

theorem thumbnail_is_not_first_entrys_image:
  "fst (get_category_list init_cache 0 (Some shop_wb) 0)
     = Inr [\<lparr>ce_name = ''Books'', ce_count = 2, ce_thumbnail = CStr ''emma.png''\<rparr>,
            \<lparr>ce_name = ''Toys'', ce_count = 0, ce_thumbnail = CStr PLACEHOLDER\<rparr>]
   \<and> claimed_thumbnail
        [make_item ''Books'' [CInt 1, CStr ''Dune'', CStr ''Herbert'', CInt 9, CNone],
         make_item ''Books'' [CInt 2, CStr ''Emma'', CStr ''Austen'', CInt 7, CStr ''emma.png'']]
     = CStr ''''
   \<and> fst (load_items_by_category init_cache 0 (Some shop_wb) 0)
     = Inr [(''Books'',
              [make_item ''Books'' [CInt 1, CStr ''Dune'', CStr ''Herbert'', CInt 9, CNone],
               make_item ''Books'' [CInt 2, CStr ''Emma'', CStr ''Austen'', CInt 7, CStr ''emma.png'']]),
            (''Toys'', [])]"
  by (simp add: get_category_list_def load_items_by_category_def init_cache_def load_shop_wb
        category_list_def claimed_thumbnail_def make_item_def col_if_set_def col_or_empty_def)

text \<open>
  C8, amended. For a workbook whose sheet titles are distinct, the materialized catalog
  has one category per sheet, in order, and \<open>category_list\<close> gives for each its name, the
  number of valid rows below the header, and as thumbnail the image (column 5) of the
  first valid row that has one, or the placeholder when no valid row has an image. A
  sheet without valid rows appears with count 0 and the placeholder. This is what
  \<open>get_category_list\<close> answers whenever its load reads the workbook.
\<close>

theorem category_list_per_sheet:
  assumes "distinct (map fst wb)"
  shows "load_sheets wb (map fst wb) [] = Inr (map (\<lambda>(n, rows). (n, read_rows n (drop 1 rows))) wb)
       \<and> category_list (map (\<lambda>(n, rows). (n, read_rows n (drop 1 rows))) wb)
           = map (\<lambda>(n, rows).
                \<lparr>ce_name = n, ce_count = length (filter valid_row (drop 1 rows)),
                 ce_thumbnail =
                   (case find (\<lambda>r. length r > 4 \<and> truthy_cell (r ! 4))
                           (filter valid_row (drop 1 rows)) of
                      None \<Rightarrow> CStr PLACEHOLDER | Some r \<Rightarrow> r ! 4)\<rparr>) wb
       \<and> (snd (snd (load_items_by_category c now (Some wb) stamp)) \<noteq> [] \<longrightarrow>
            fst (get_category_list c now (Some wb) stamp)
              = Inr (category_list (map (\<lambda>(n, rows). (n, read_rows n (drop 1 rows))) wb)))
       \<and> (\<forall>n rows. (n, rows) \<in> set wb \<and> filter valid_row (drop 1 rows) = [] \<longrightarrow>
            \<lparr>ce_name = n, ce_count = 0, ce_thumbnail = CStr PLACEHOLDER\<rparr>
              \<in> set (category_list (map (\<lambda>(n, rows). (n, read_rows n (drop 1 rows))) wb)))"
  (is "?A \<and> ?B \<and> ?C \<and> ?D")
proof -
  have a: ?A using assms by (rule load_sheets_workbook)
  have b: ?B by (rule category_list_workbook)
  have c: ?C
    using a
    by (cases "c_data c")
       (auto simp: get_category_list_def load_items_by_category_def)
  have d: ?D
  proof (intro allI impI)
    fix n rows
    assume h: "(n, rows) \<in> set wb \<and> filter valid_row (drop 1 rows) = []"
    then have "(\<lambda>(n, rows).
                \<lparr>ce_name = n, ce_count = length (filter valid_row (drop 1 rows)),
                 ce_thumbnail =
                   (case find (\<lambda>r. length r > 4 \<and> truthy_cell (r ! 4))
                           (filter valid_row (drop 1 rows)) of
                      None \<Rightarrow> CStr PLACEHOLDER | Some r \<Rightarrow> r ! 4)\<rparr>) (n, rows)
               = \<lparr>ce_name = n, ce_count = 0, ce_thumbnail = CStr PLACEHOLDER\<rparr>"
      by simp
    with h show "\<lparr>ce_name = n, ce_count = 0, ce_thumbnail = CStr PLACEHOLDER\<rparr>
              \<in> set (category_list (map (\<lambda>(n, rows). (n, read_rows n (drop 1 rows))) wb))"
      unfolding b by (metis (no_types, lifting) image_eqI set_map)
  qed
  show ?thesis using a b c d by blast
qed

theorem category_list_per_sheet_witness:
  "distinct (map fst shop_wb)
   \<and> category_list (map (\<lambda>(n, rows). (n, read_rows n (drop 1 rows))) shop_wb)
       = [\<lparr>ce_name = ''Books'', ce_count = 2, ce_thumbnail = CStr ''emma.png''\<rparr>,
          \<lparr>ce_name = ''Toys'', ce_count = 0, ce_thumbnail = CStr PLACEHOLDER\<rparr>]"
proof -
  have h: "distinct (map fst shop_wb)" by (simp add: shop_wb_def)
  have "category_list (map (\<lambda>(n, rows). (n, read_rows n (drop 1 rows))) shop_wb)
       = [\<lparr>ce_name = ''Books'', ce_count = 2, ce_thumbnail = CStr ''emma.png''\<rparr>,
          \<lparr>ce_name = ''Toys'', ce_count = 0, ce_thumbnail = CStr PLACEHOLDER\<rparr>]"
    unfolding category_list_per_sheet [OF h, THEN conjunct2, THEN conjunct1]
    by (simp add: shop_wb_def valid_row_def)
  with h show ?thesis by (rule conjI)
qed

end
